theory Spec2Isabelle
  imports Main "HOL-Library.Sublist"
begin

section \<open>JavaScript values and objects\<close>

text \<open>
  The tool arguments of a call arrive as a parsed JSON object (or not at all), so a
  value is one of the JSON shapes, or \<open>undefined\<close>, which the code tests for as well.
  Strings are byte strings: the UTF-8 form that the query-string serialiser works on.
  A number is a double, and the only thing the code does with one is to convert it to
  a string. So a number is given by the text that this conversion yields for it, which
  determines it (up to the sign of zero): \<open>Num ''500''\<close>, \<open>Num ''0.5''\<close>,
  \<open>Num ''1152921504606847000''\<close> for \<open>2^60\<close>, \<open>Num ''1e+21''\<close> for \<open>10^21\<close>.
\<close>

datatype jsval =
    Undefined
  | Null
  | Bool bool
  | Num string
  | Str string
  | Arr "jsval list"
  | Obj "(string \<times> jsval) list"

text \<open>An object is the list of its own properties in creation order; a real object has
  pairwise distinct keys.\<close>

type_synonym 'a jsobj = "(string \<times> 'a) list"

subsection \<open>Decimal digits\<close>

definition digit_char :: "nat \<Rightarrow> char" where
  "digit_char d = ''0123456789'' ! d"

fun decimal_of_nat :: "nat \<Rightarrow> string" where
  "decimal_of_nat m =
     (if 10 \<le> m then decimal_of_nat (m div 10) else []) @ [digit_char (m mod 10)]"

declare decimal_of_nat.simps [simp del]

subsection \<open>\<open>String(value)\<close>\<close>

definition join :: "string \<Rightarrow> string list \<Rightarrow> string" where
  "join sep xs = (case xs of [] \<Rightarrow> [] | y # ys \<Rightarrow> y @ concat (map (\<lambda>z. sep @ z) ys))"

text \<open>
  \<open>String(v)\<close>, with \<open>None\<close> where it throws the type error
  \<open>Cannot convert object to primitive value\<close>. A parsed JSON object has no callable
  property of its own, so an own property \<open>toString\<close> hides the inherited method and
  the conversion fails; without one the inherited method gives \<open>[object Object]\<close>. An
  array is joined with commas, its \<open>undefined\<close> and \<open>null\<close> elements giving the empty
  string, and fails when the conversion of an element does.
\<close>

fun js_String :: "jsval \<Rightarrow> string option" where
  "js_String Undefined = Some ''undefined''"
| "js_String Null = Some ''null''"
| "js_String (Bool b) = Some (if b then ''true'' else ''false'')"
| "js_String (Num s) = Some s"
| "js_String (Str s) = Some s"
| "js_String (Arr xs) =
     map_option (join '','')
       (those (map (\<lambda>x. case x of Undefined \<Rightarrow> Some [] | Null \<Rightarrow> Some [] | _ \<Rightarrow> js_String x) xs))"
| "js_String (Obj ps) =
     (if ''toString'' \<in> set (map fst ps) then None else Some ''[object Object]'')"

subsection \<open>Property order\<close>

text \<open>
  The own keys of an object are enumerated with the array indices first, in ascending
  numeric order, and then the other keys in creation order. An array index is a
  canonical decimal numeral below \<open>2^32 - 1\<close>.
\<close>

definition is_digit :: "char \<Rightarrow> bool" where
  "is_digit c = (48 \<le> (of_char c :: nat) \<and> (of_char c :: nat) \<le> 57)"

fun canonical_digits :: "string \<Rightarrow> bool" where
  "canonical_digits [] = False"
| "canonical_digits [c] = is_digit c"
| "canonical_digits (c # cs) = (is_digit c \<and> c \<noteq> CHR ''0'' \<and> list_all is_digit cs)"

definition digits_value :: "string \<Rightarrow> nat" where
  "digits_value k = foldl (\<lambda>acc c. acc * 10 + (of_char c - 48)) 0 k"

definition array_index :: "string \<Rightarrow> nat option" where
  "array_index k =
     (if canonical_digits k \<and> digits_value k < 4294967295 then Some (digits_value k) else None)"

definition is_array_index :: "string \<times> 'a \<Rightarrow> bool" where
  "is_array_index p = (array_index (fst p) \<noteq> None)"

definition index_value :: "string \<times> 'a \<Rightarrow> nat" where
  "index_value p = (case array_index (fst p) of None \<Rightarrow> 0 | Some n \<Rightarrow> n)"

text \<open>\<open>Object.entries(o)\<close>\<close>

definition Object_entries :: "'a jsobj \<Rightarrow> (string \<times> 'a) list" where
  "Object_entries obj =
     sort_key index_value (filter is_array_index obj) @ filter (\<lambda>p. \<not> is_array_index p) obj"

text \<open>Defining a data property: an existing key keeps its place and takes the new value,
  a new key is created last.\<close>

fun obj_set :: "string \<Rightarrow> 'a \<Rightarrow> 'a jsobj \<Rightarrow> 'a jsobj" where
  "obj_set k v [] = [(k, v)]"
| "obj_set k v ((k', v') # ps) = (if k' = k then (k, v) # ps else (k', v') # obj_set k v ps)"

text \<open>Defining the properties of a list of entries, one after the other.\<close>

abbreviation define_all :: "'a jsobj \<Rightarrow> (string \<times> 'a) list \<Rightarrow> 'a jsobj" where
  "define_all acc es \<equiv> foldl (\<lambda>obj e. obj_set (fst e) (snd e) obj) acc es"

text \<open>\<open>Object.fromEntries(es)\<close>\<close>

definition Object_fromEntries :: "(string \<times> 'a) list \<Rightarrow> 'a jsobj" where
  "Object_fromEntries es = define_all [] es"

text \<open>\<open>{ ...target, ...source }\<close>: the own properties of the source are copied in
  enumeration order.\<close>

definition obj_spread :: "'a jsobj \<Rightarrow> 'a jsobj \<Rightarrow> 'a jsobj" where
  "obj_spread target source = define_all target (Object_entries source)"

text \<open>\<open>o.k\<close>: a missing property reads as \<open>undefined\<close>.\<close>

definition obj_get :: "jsval jsobj \<Rightarrow> string \<Rightarrow> jsval" where
  "obj_get obj k = (case map_of obj k of None \<Rightarrow> Undefined | Some v \<Rightarrow> v)"

section \<open>The query string\<close>

text \<open>
  \<open>new URLSearchParams(record)\<close> takes the name-value pairs of the record in enumeration
  order, and its string form is the \<open>application/x-www-form-urlencoded\<close> serialisation:
  a space becomes \<open>+\<close>, the bytes \<open>* - . _\<close>, the digits and the ASCII letters stand for
  themselves, and every other byte is written \<open>%HH\<close> in upper-case hexadecimal.
\<close>

definition URLSearchParams :: "string jsobj \<Rightarrow> (string \<times> string) list" where
  "URLSearchParams init = Object_entries init"

definition urlencoded_plain :: "char \<Rightarrow> bool" where
  "urlencoded_plain c =
     (let n = (of_char c :: nat) in
        n = 42 \<or> n = 45 \<or> n = 46 \<or> n = 95 \<or> (48 \<le> n \<and> n \<le> 57) \<or> (65 \<le> n \<and> n \<le> 90) \<or> (97 \<le> n \<and> n \<le> 122))"

definition hex_digit :: "nat \<Rightarrow> char" where
  "hex_digit d = ''0123456789ABCDEF'' ! d"

definition urlencode_byte :: "char \<Rightarrow> string" where
  "urlencode_byte c =
     (if c = CHR '' '' then ''+''
      else if urlencoded_plain c then [c]
      else [CHR ''%'', hex_digit ((of_char c :: nat) div 16), hex_digit ((of_char c :: nat) mod 16)])"

definition urlencode :: "string \<Rightarrow> string" where
  "urlencode s = concat (map urlencode_byte s)"

definition serialize_pair :: "string \<times> string \<Rightarrow> string" where
  "serialize_pair p = urlencode (fst p) @ ''='' @ urlencode (snd p)"

definition toString :: "(string \<times> string) list \<Rightarrow> string" where
  "toString ps = join ''&'' (map serialize_pair ps)"

section \<open>The server\<close>

record PixabayConfig =
  apiKey :: string
  baseUrl :: string
  videosUrl :: string

text \<open>The constructor reads the key from the environment: \<open>process.env.PIXABAY_API_KEY || ""\<close>.\<close>

definition PixabayMCPServer :: "string option \<Rightarrow> PixabayConfig" where
  "PixabayMCPServer env_key =
     \<lparr> apiKey = (case env_key of None \<Rightarrow> [] | Some k \<Rightarrow> k),
       baseUrl = ''https://pixabay.com/api/'',
       videosUrl = ''https://pixabay.com/api/videos/'' \<rparr>"

text \<open>What is thrown inside the handler is always an \<open>Error\<close> object with its message:
  the errors the code makes itself, the type errors of the runtime, and the errors with
  which \<open>fetch\<close> and the reading of a response body reject.\<close>

datatype thrown = Error (message: string)

text \<open>
  The one \<open>fetch(url)\<close> of a call either rejects, or resolves to a response with its
  status (the three-digit status code), its status text, the outcome of reading the body as text, and the outcome of
  reading it as JSON, given as the text \<open>JSON.stringify(data, null, 2)\<close> of the parsed data.
  \<open>ok\<close> is the Fetch standard's: the status is in the range 200 to 299.
\<close>

record response =
  status :: nat
  statusText :: string
  body_text :: "thrown + string"
  body_json :: "thrown + string"

definition ok :: "response \<Rightarrow> bool" where
  "ok r = (200 \<le> status r \<and> status r \<le> 299)"

datatype fetch_outcome = Rejects thrown | Resolves response

text \<open>What a call does besides returning: the lines written by \<open>console.error\<close> and the URLs
  handed to \<open>fetch\<close>. \<open>fetch\<close> is called with the URL alone, so a request has no header
  or body of the server's making.\<close>

record effects =
  stderr :: "string list"
  fetched :: "string list"

definition no_effects :: effects where
  "no_effects = \<lparr> stderr = [], fetched = [] \<rparr>"

record content_item =
  item_type :: string
  item_text :: string

record tool_result =
  content :: "content_item list"

definition text_result :: "string \<Rightarrow> tool_result" where
  "text_result t = \<lparr> content = [\<lparr> item_type = ''text'', item_text = t \<rparr>] \<rparr>"

text \<open>The names of the four tool descriptors that the listing returns, and the bounds
  that the schema of the two search tools declares for \<open>per_page\<close>.\<close>

definition tool_names :: "string list" where
  "tool_names = [''search_images'', ''search_videos'', ''get_image_by_id'', ''get_video_by_id'']"

definition per_page_minimum :: int where
  "per_page_minimum = 3"

definition per_page_maximum :: int where
  "per_page_maximum = 200"

text \<open>The filter and the map of \<open>searchImages\<close> and \<open>searchVideos\<close>.\<close>

definition kept :: "string \<times> jsval \<Rightarrow> bool" where
  "kept e = (snd e \<noteq> Undefined \<and> snd e \<noteq> Null \<and> snd e \<noteq> Str [])"

text \<open>An entry with its value converted; the conversion may throw.\<close>

definition stringified :: "string \<times> jsval \<Rightarrow> (string \<times> string) option" where
  "stringified e = map_option (Pair (fst e)) (js_String (snd e))"

text \<open>The entry when the conversion does not throw.\<close>

abbreviation text_entry :: "string \<times> jsval \<Rightarrow> string \<times> string" where
  "text_entry e \<equiv> (fst e, the (js_String (snd e)))"

text \<open>\<open>None\<close>: the \<open>map\<close> over the kept entries has thrown.\<close>

definition filteredParams :: "jsval jsobj \<Rightarrow> string jsobj option" where
  "filteredParams params =
     map_option Object_fromEntries (those (map stringified (filter kept (Object_entries params))))"

definition searchParams :: "PixabayConfig \<Rightarrow> jsval jsobj \<Rightarrow> (string \<times> string) list option" where
  "searchParams cfg params =
     map_option (\<lambda>fp. URLSearchParams (obj_spread [(''key'', apiKey cfg)] fp)) (filteredParams params)"

text \<open>The part the two search functions share: everything but the endpoint and the two
  log prefixes.\<close>

definition search :: "string \<Rightarrow> string \<Rightarrow> string \<Rightarrow> PixabayConfig \<Rightarrow> fetch_outcome \<Rightarrow> jsval jsobj option
    \<Rightarrow> (thrown + tool_result) \<times> effects" where
  "search endpoint request_label error_label cfg fo params =
     (case params of
        None \<Rightarrow> (Inl (Error ''Cannot convert undefined or null to object''), no_effects)
      | Some ps \<Rightarrow>
          (case searchParams cfg ps of
             None \<Rightarrow> (Inl (Error ''Cannot convert object to primitive value''), no_effects)
           | Some sp \<Rightarrow>
               (let url = endpoint @ ''?'' @ toString sp;
                    line1 = request_label @ url
                in case fo of
                     Rejects e \<Rightarrow> (Inl e, \<lparr> stderr = [line1], fetched = [url] \<rparr>)
                   | Resolves r \<Rightarrow>
                       if \<not> ok r then
                         (case body_text r of
                            Inl e \<Rightarrow> (Inl e, \<lparr> stderr = [line1], fetched = [url] \<rparr>)
                          | Inr errorText \<Rightarrow>
                              (Inl (Error (''Pixabay API error: '' @ decimal_of_nat (status r) @ '' ''
                                             @ statusText r @ '' - '' @ errorText)),
                               \<lparr> stderr = [line1, error_label @ errorText], fetched = [url] \<rparr>))
                       else
                         (case body_json r of
                            Inl e \<Rightarrow> (Inl e, \<lparr> stderr = [line1], fetched = [url] \<rparr>)
                          | Inr data \<Rightarrow>
                              (Inr (text_result data), \<lparr> stderr = [line1], fetched = [url] \<rparr>)))))"

definition searchImages :: "PixabayConfig \<Rightarrow> fetch_outcome \<Rightarrow> jsval jsobj option
    \<Rightarrow> (thrown + tool_result) \<times> effects" where
  "searchImages cfg fo params =
     search (baseUrl cfg) ''Pixabay API Request: '' ''Pixabay API Error Response: '' cfg fo params"

definition searchVideos :: "PixabayConfig \<Rightarrow> fetch_outcome \<Rightarrow> jsval jsobj option
    \<Rightarrow> (thrown + tool_result) \<times> effects" where
  "searchVideos cfg fo params =
     search (videosUrl cfg) ''Pixabay Video API Request: '' ''Pixabay Video API Error Response: ''
       cfg fo params"

text \<open>\<open>params.id\<close> throws on \<open>undefined\<close>; the search is then called with the fresh object
  \<open>{ id: params.id }\<close>.\<close>

definition getImageById :: "PixabayConfig \<Rightarrow> fetch_outcome \<Rightarrow> jsval jsobj option
    \<Rightarrow> (thrown + tool_result) \<times> effects" where
  "getImageById cfg fo params =
     (case params of
        None \<Rightarrow> (Inl (Error ''Cannot read properties of undefined (reading 'id')''), no_effects)
      | Some ps \<Rightarrow> searchImages cfg fo (Some [(''id'', obj_get ps ''id'')]))"

definition getVideoById :: "PixabayConfig \<Rightarrow> fetch_outcome \<Rightarrow> jsval jsobj option
    \<Rightarrow> (thrown + tool_result) \<times> effects" where
  "getVideoById cfg fo params =
     (case params of
        None \<Rightarrow> (Inl (Error ''Cannot read properties of undefined (reading 'id')''), no_effects)
      | Some ps \<Rightarrow> searchVideos cfg fo (Some [(''id'', obj_get ps ''id'')]))"

text \<open>The \<open>switch\<close> on the tool name, inside the \<open>try\<close>.\<close>

definition dispatch :: "PixabayConfig \<Rightarrow> fetch_outcome \<Rightarrow> string \<Rightarrow> jsval jsobj option
    \<Rightarrow> (thrown + tool_result) \<times> effects" where
  "dispatch cfg fo name args =
     (if name = ''search_images'' then searchImages cfg fo args
      else if name = ''search_videos'' then searchVideos cfg fo args
      else if name = ''get_image_by_id'' then getImageById cfg fo args
      else if name = ''get_video_by_id'' then getVideoById cfg fo args
      else (Inl (Error (''Unknown tool: '' @ name)), no_effects))"

text \<open>The text of the \<open>catch\<close>: the message of the \<open>Error\<close>; its other branch, for a
  thrown value that is no \<open>Error\<close>, is never taken.\<close>

fun error_text :: "thrown \<Rightarrow> string" where
  "error_text (Error m) = m"

text \<open>The handler of a tool call. \<open>Inl\<close> is an exception leaving the handler, \<open>Inr\<close> the
  result it returns. The test of the key stands before the \<open>try\<close>.\<close>

definition callTool :: "PixabayConfig \<Rightarrow> fetch_outcome \<Rightarrow> string \<Rightarrow> jsval jsobj option
    \<Rightarrow> (thrown + tool_result) \<times> effects" where
  "callTool cfg fo name args =
     (if apiKey cfg = [] then
        (Inl (Error ''PIXABAY_API_KEY environment variable is required''), no_effects)
      else
        (case dispatch cfg fo name args of
           (Inl e, fx) \<Rightarrow> (Inr (text_result (''Error: '' @ error_text e)), fx)
         | (Inr res, fx) \<Rightarrow> (Inr res, fx)))"

section \<open>Properties of the model\<close>

subsection \<open>Objects\<close>

lemma obj_set_keys: "fst ` set (obj_set k v ps) = insert k (fst ` set ps)"
proof (induction ps)
  case Nil
  show ?case by simp
next
  case (Cons p ps)
  show ?case
  proof (cases "fst p = k")
    case True
    then show ?thesis by (cases p) auto
  next
    case False
    then show ?thesis using Cons by (cases p) auto
  qed
qed

lemma obj_set_distinct: "distinct (map fst ps) \<Longrightarrow> distinct (map fst (obj_set k v ps))"
  by (induction ps) (auto simp: obj_set_keys)

lemma map_of_obj_set: "map_of (obj_set k v ps) = (map_of ps)(k \<mapsto> v)"
  by (induction ps) auto

lemma obj_set_subset: "set (obj_set k v ps) \<subseteq> insert (k, v) (set ps)"
  by (induction ps) (auto split: if_splits)

lemma define_all_keys: "fst ` set (define_all acc es) = fst ` set acc \<union> fst ` set es"
  by (induction es arbitrary: acc) (auto simp: obj_set_keys)

lemma define_all_distinct: "distinct (map fst acc) \<Longrightarrow> distinct (map fst (define_all acc es))"
  by (induction es arbitrary: acc) (auto simp: obj_set_distinct)

lemma define_all_subset: "set (define_all acc es) \<subseteq> set acc \<union> set es"
proof (induction es arbitrary: acc)
  case Nil
  show ?case by simp
next
  case (Cons e es)
  have "set (define_all (obj_set (fst e) (snd e) acc) es) \<subseteq> set (obj_set (fst e) (snd e) acc) \<union> set es"
    by (rule Cons.IH)
  also have "\<dots> \<subseteq> insert e (set acc) \<union> set es"
    using obj_set_subset [of "fst e" "snd e" acc] by auto
  finally show ?case by auto
qed

lemma define_all_map_of: "map_of (define_all acc es) = map_of acc ++ map_of (rev es)"
proof (induction es arbitrary: acc)
  case Nil
  show ?case by simp
next
  case (Cons e es)
  have "map_of (define_all acc (e # es)) = map_of (obj_set (fst e) (snd e) acc) ++ map_of (rev es)"
    by (simp add: Cons.IH)
  also have "\<dots> = map_of acc ++ map_of (rev (e # es))"
    by (rule ext) (auto simp: map_of_obj_set map_add_def split: option.splits)
  finally show ?case .
qed

lemma map_of_rev_distinct: "distinct (map fst es) \<Longrightarrow> map_of (rev es) = map_of es"
  by (rule map_of_inject_set [THEN iffD2]) (simp_all add: rev_map [symmetric])

lemma set_Object_entries: "set (Object_entries obj) = set obj"
  by (auto simp: Object_entries_def)

lemma distinct_Object_entries:
  assumes "distinct (map fst obj)"
  shows "distinct (map fst (Object_entries obj))"
proof -
  from assms have d: "distinct obj" and i: "inj_on fst (set obj)"
    by (simp_all add: distinct_map)
  have "distinct (Object_entries obj)"
    using d by (auto simp: Object_entries_def)
  moreover have "inj_on fst (set (Object_entries obj))"
    using i by (simp add: set_Object_entries)
  ultimately show ?thesis
    by (simp add: distinct_map)
qed

lemma map_of_Object_entries:
  "distinct (map fst obj) \<Longrightarrow> map_of (Object_entries obj) = map_of obj"
  by (rule map_of_inject_set [THEN iffD2]) (simp_all add: distinct_Object_entries set_Object_entries)


subsection \<open>Conversions that may throw\<close>

lemma those_map_None: "those (map f xs) = None \<longleftrightarrow> (\<exists>x\<in>set xs. f x = None)"
  by (induction xs) (auto split: option.splits)

lemma those_map_Some:
  "those (map f xs) = Some ys \<Longrightarrow> ys = map (\<lambda>x. the (f x)) xs \<and> (\<forall>x\<in>set xs. f x \<noteq> None)"
  by (induction xs arbitrary: ys) (auto split: option.splits)

lemma stringified_None: "stringified e = None \<longleftrightarrow> js_String (snd e) = None"
  by (simp add: stringified_def)

lemma the_stringified: "js_String (snd e) \<noteq> None \<Longrightarrow> the (stringified e) = text_entry e"
  by (auto simp: stringified_def)

subsection \<open>The parameters of the query\<close>

lemma filteredParams_None:
  "filteredParams ps = None \<longleftrightarrow> (\<exists>e\<in>set ps. kept e \<and> js_String (snd e) = None)"
proof -
  have "filteredParams ps = None \<longleftrightarrow>
      (\<exists>e\<in>set (filter kept (Object_entries ps)). js_String (snd e) = None)"
    by (simp add: filteredParams_def those_map_None stringified_None)
  also have "\<dots> \<longleftrightarrow> (\<exists>e\<in>set ps. kept e \<and> js_String (snd e) = None)"
    unfolding set_filter set_Object_entries by blast
  finally show ?thesis .
qed

lemma filteredParams_Some:
  assumes "filteredParams ps = Some fp"
  shows "fp = Object_fromEntries (map text_entry (filter kept (Object_entries ps)))"
    and "\<forall>e\<in>set ps. kept e \<longrightarrow> js_String (snd e) \<noteq> None"
proof -
  from assms obtain es where es: "those (map stringified (filter kept (Object_entries ps))) = Some es"
    and fp: "fp = Object_fromEntries es"
    by (auto simp: filteredParams_def)
  from those_map_Some [OF es]
  have 1: "es = map (\<lambda>e. the (stringified e)) (filter kept (Object_entries ps))"
    and 2: "\<forall>e\<in>set (filter kept (Object_entries ps)). stringified e \<noteq> None"
    by simp_all
  from 2 show 3: "\<forall>e\<in>set ps. kept e \<longrightarrow> js_String (snd e) \<noteq> None"
    by (auto simp: stringified_None set_Object_entries)
  have "map (\<lambda>e. the (stringified e)) (filter kept (Object_entries ps))
      = map text_entry (filter kept (Object_entries ps))"
    using 3 by (intro map_cong refl the_stringified) (auto simp: set_Object_entries)
  with 1 fp show "fp = Object_fromEntries (map text_entry (filter kept (Object_entries ps)))"
    by simp
qed

lemma filteredParams_keys:
  assumes "filteredParams ps = Some fp"
  shows "fst ` set fp = fst ` set (filter kept ps)"
  unfolding filteredParams_Some(1) [OF assms]
  by (force simp: Object_fromEntries_def define_all_keys set_Object_entries)

lemma filteredParams_distinct:
  assumes "filteredParams ps = Some fp"
  shows "distinct (map fst fp)"
  unfolding filteredParams_Some(1) [OF assms]
  by (simp add: Object_fromEntries_def define_all_distinct)

lemma filteredParams_subset:
  assumes "filteredParams ps = Some fp"
  shows "set fp \<subseteq> text_entry ` set (filter kept ps)"
  unfolding filteredParams_Some(1) [OF assms]
  using define_all_subset [of "[]" "map text_entry (filter kept (Object_entries ps))"]
  by (auto simp: Object_fromEntries_def set_Object_entries)

lemma filteredParams_map_of:
  assumes "distinct (map fst ps)" and "filteredParams ps = Some fp"
  shows "map_of fp = map_of (map text_entry (filter kept ps))"
proof -
  let ?es = "map text_entry (filter kept (Object_entries ps))"
  have keys: "map fst ?es = map fst (filter kept (Object_entries ps))"
    by simp
  have d: "distinct (map fst ?es)"
    unfolding keys using distinct_Object_entries [OF assms(1)] by (rule distinct_map_filter)
  have d': "distinct (map fst (map text_entry (filter kept ps)))"
    using assms(1) by (simp add: comp_def distinct_map_filter)
  have "map_of fp = map_of (rev ?es)"
    by (simp add: filteredParams_Some(1) [OF assms(2)] Object_fromEntries_def define_all_map_of)
  also have "\<dots> = map_of ?es"
    using d by (rule map_of_rev_distinct)
  also have "\<dots> = map_of (map text_entry (filter kept ps))"
    using d d' by (subst map_of_inject_set) (auto simp: set_Object_entries)
  finally show ?thesis .
qed

lemma searchParams_None:
  "searchParams cfg ps = None \<longleftrightarrow> (\<exists>e\<in>set ps. kept e \<and> js_String (snd e) = None)"
  by (simp add: searchParams_def filteredParams_None)

lemma searchParams_Some:
  assumes "searchParams cfg ps = Some sp"
  obtains fp where "filteredParams ps = Some fp"
    and "sp = URLSearchParams (obj_spread [(''key'', apiKey cfg)] fp)"
  using assms by (auto simp: searchParams_def)

lemma searchParams_keys:
  assumes "searchParams cfg ps = Some sp"
  shows "fst ` set sp = insert ''key'' (fst ` set (filter kept ps))"
proof -
  from assms obtain fp where fp: "filteredParams ps = Some fp"
    and sp: "sp = URLSearchParams (obj_spread [(''key'', apiKey cfg)] fp)"
    by (rule searchParams_Some)
  show ?thesis
    by (simp add: sp URLSearchParams_def obj_spread_def set_Object_entries
        define_all_keys filteredParams_keys [OF fp])
qed

lemma searchParams_distinct:
  assumes "searchParams cfg ps = Some sp"
  shows "distinct (map fst sp)"
proof -
  from assms obtain fp where "sp = URLSearchParams (obj_spread [(''key'', apiKey cfg)] fp)"
    by (rule searchParams_Some)
  then show ?thesis
    by (simp add: URLSearchParams_def obj_spread_def distinct_Object_entries define_all_distinct)
qed

lemma searchParams_subset:
  assumes "searchParams cfg ps = Some sp"
  shows "set sp \<subseteq> insert (''key'', apiKey cfg) (text_entry ` set (filter kept ps))"
proof -
  from assms obtain fp where fp: "filteredParams ps = Some fp"
    and sp: "sp = URLSearchParams (obj_spread [(''key'', apiKey cfg)] fp)"
    by (rule searchParams_Some)
  show ?thesis
    using define_all_subset [of "[(''key'', apiKey cfg)]" "Object_entries fp"]
      filteredParams_subset [OF fp]
    by (auto simp: sp URLSearchParams_def obj_spread_def set_Object_entries)
qed

lemma searchParams_map_of:
  assumes "distinct (map fst ps)" and "searchParams cfg ps = Some sp"
  shows "map_of sp k =
    (case map_of (map text_entry (filter kept ps)) k of
       Some s \<Rightarrow> Some s
     | None \<Rightarrow> if k = ''key'' then Some (apiKey cfg) else None)"
proof -
  from assms(2) obtain fp where fp: "filteredParams ps = Some fp"
    and sp: "sp = URLSearchParams (obj_spread [(''key'', apiKey cfg)] fp)"
    by (rule searchParams_Some)
  let ?obj = "obj_spread [(''key'', apiKey cfg)] fp"
  have "distinct (map fst ?obj)"
    by (simp add: obj_spread_def define_all_distinct)
  then have "map_of sp = map_of ?obj"
    by (simp add: sp URLSearchParams_def map_of_Object_entries)
  also have "\<dots> = map_of [(''key'', apiKey cfg)] ++ map_of (rev (Object_entries fp))"
    unfolding obj_spread_def by (rule define_all_map_of)
  also have "map_of (rev (Object_entries fp)) = map_of fp"
    by (simp add: map_of_rev_distinct distinct_Object_entries filteredParams_distinct [OF fp]
        map_of_Object_entries)
  also have "\<dots> = map_of (map text_entry (filter kept ps))"
    using assms(1) fp by (rule filteredParams_map_of)
  finally show ?thesis
    by (simp add: map_add_def split: option.splits)
qed

lemma distinct_filter_key:
  "distinct (map fst xs) \<Longrightarrow> (k, v) \<in> set xs \<Longrightarrow> filter (\<lambda>p. fst p = k) xs = [(k, v)]"
proof (induction xs)
  case Nil
  then show ?case by simp
next
  case (Cons x xs)
  show ?case
  proof (cases "x = (k, v)")
    case True
    with Cons.prems have "\<forall>p\<in>set xs. fst p \<noteq> k"
      by auto
    then have "filter (\<lambda>p. fst p = k) xs = []"
      by (simp add: filter_empty_conv)
    with True show ?thesis by simp
  next
    case False
    with Cons.prems have "(k, v) \<in> set xs" "fst x \<noteq> k"
      by (auto simp: image_iff)
    with Cons show ?thesis by simp
  qed
qed


lemma searchParams_kept:
  assumes "distinct (map fst ps)" "searchParams cfg ps = Some sp" "(k, v) \<in> set ps" "kept (k, v)"
  shows "\<exists>s. js_String v = Some s \<and> map_of sp k = Some s"
proof -
  have "searchParams cfg ps \<noteq> None"
    using assms(2) by simp
  with assms(3,4) have "js_String v \<noteq> None"
    unfolding searchParams_None by force
  then obtain s where s: "js_String v = Some s"
    by blast
  have "distinct (map fst (map text_entry (filter kept ps)))"
    using assms(1) by (simp add: comp_def distinct_map_filter)
  moreover have "(k, s) \<in> set (map text_entry (filter kept ps))"
    using assms(3,4) s by force
  ultimately have "map_of (map text_entry (filter kept ps)) k = Some s"
    by (rule map_of_is_SomeI)
  then have "map_of sp k = Some s"
    by (simp add: searchParams_map_of [OF assms(1,2)])
  with s show ?thesis by simp
qed

lemma searchParams_dropped:
  assumes "distinct (map fst ps)" "searchParams cfg ps = Some sp"
    and "(k, v) \<in> set ps" "\<not> kept (k, v)" "k \<noteq> ''key''"
  shows "k \<notin> fst ` set sp"
proof
  assume "k \<in> fst ` set sp"
  with assms(5) obtain v' where "(k, v') \<in> set ps" "kept (k, v')"
    by (auto simp: searchParams_keys [OF assms(2)])
  moreover from assms(1) this(1) assms(3) have "v' = v"
    by (rule eq_key_imp_eq_value)
  ultimately show False
    using assms(4) by simp
qed

lemma searchParams_has_key:
  assumes "searchParams cfg ps = Some sp"
  shows "\<exists>c. (''key'', c) \<in> set sp"
proof -
  have "''key'' \<in> fst ` set sp"
    by (simp add: searchParams_keys [OF assms])
  then show ?thesis by force
qed

lemma searchParams_key_value:
  assumes "searchParams cfg ps = Some sp" and "(''key'', c) \<in> set sp"
  shows "c = apiKey cfg \<or>
    (\<exists>v. (''key'', v) \<in> set ps \<and> kept (''key'', v) \<and> js_String v = Some c)"
proof -
  from assms(2) searchParams_subset [OF assms(1)]
  have "(''key'', c) = (''key'', apiKey cfg) \<or> (''key'', c) \<in> text_entry ` set (filter kept ps)"
    by blast
  then show ?thesis
  proof
    assume "(''key'', c) = (''key'', apiKey cfg)"
    then show ?thesis by simp
  next
    assume "(''key'', c) \<in> text_entry ` set (filter kept ps)"
    then obtain e where e: "e \<in> set ps" "kept e" "(''key'', c) = text_entry e"
      by auto
    have "searchParams cfg ps \<noteq> None"
      using assms(1) by simp
    with e(1,2) have "js_String (snd e) \<noteq> None"
      unfolding searchParams_None by force
    then obtain s where "js_String (snd e) = Some s"
      by blast
    with e have "(''key'', snd e) \<in> set ps \<and> kept (''key'', snd e) \<and> js_String (snd e) = Some c"
      by (cases e) auto
    then show ?thesis by blast
  qed
qed

subsection \<open>The text of the query\<close>

lemma sublist_join: "x \<in> set xs \<Longrightarrow> sublist x (join sep xs)"
proof (induction xs)
  case Nil
  then show ?case by simp
next
  case (Cons y ys)
  show ?case
  proof (cases "x = y")
    case True
    then show ?thesis by (simp add: join_def)
  next
    case False
    with Cons.prems have "x \<in> set ys" by simp
    then obtain us vs where "ys = us @ x # vs"
      by (auto simp: in_set_conv_decomp)
    then have "join sep (y # ys) =
        (y @ concat (map (\<lambda>z. sep @ z) us) @ sep) @ x @ concat (map (\<lambda>z. sep @ z) vs)"
      by (simp add: join_def)
    then show ?thesis
      by (metis sublist_appendI)
  qed
qed

lemma sublist_toString: "p \<in> set ps \<Longrightarrow> sublist (serialize_pair p) (toString ps)"
  unfolding toString_def by (rule sublist_join) simp

lemma urlencode_plain: "list_all urlencoded_plain s \<Longrightarrow> urlencode s = s"
proof (induction s)
  case Nil
  show ?case by (simp add: urlencode_def)
next
  case (Cons c s)
  then have "urlencoded_plain c" by simp
  then have "urlencode_byte c = [c]"
    by (auto simp: urlencode_byte_def urlencoded_plain_def)
  with Cons show ?case
    by (simp add: urlencode_def)
qed

subsection \<open>What a search does\<close>

lemma search_thrown:
  assumes "searchParams cfg ps = None"
  shows "search ep l1 l2 cfg fo (Some ps) =
    (Inl (Error ''Cannot convert object to primitive value''), no_effects)"
  using assms by (simp add: search_def)

lemma search_fetched:
  assumes "searchParams cfg ps = Some sp"
  shows "fetched (snd (search ep l1 l2 cfg fo (Some ps))) = [ep @ ''?'' @ toString sp]"
  using assms by (cases fo) (auto simp: search_def Let_def split: sum.splits)

lemma search_stderr_hd:
  assumes "searchParams cfg ps = Some sp"
  shows "\<exists>rest. stderr (snd (search ep l1 l2 cfg fo (Some ps))) = (l1 @ ep @ ''?'' @ toString sp) # rest"
  using assms by (cases fo) (auto simp: search_def Let_def split: sum.splits)

lemma search_result_not_ok:
  assumes "searchParams cfg ps = Some sp" and "\<not> ok r"
  shows "fst (search ep l1 l2 cfg (Resolves r) (Some ps)) =
    (case body_text r of
       Inl e \<Rightarrow> Inl e
     | Inr b \<Rightarrow> Inl (Error (''Pixabay API error: '' @ decimal_of_nat (status r) @ '' ''
                        @ statusText r @ '' - '' @ b)))"
  using assms by (simp add: search_def Let_def split: sum.splits)

lemma callTool_effects:
  "apiKey cfg \<noteq> [] \<Longrightarrow> snd (callTool cfg fo name args) = snd (dispatch cfg fo name args)"
  by (simp add: callTool_def split: prod.splits sum.splits)

lemma callTool_result:
  "apiKey cfg \<noteq> [] \<Longrightarrow> fst (callTool cfg fo name args) =
     (case fst (dispatch cfg fo name args) of
        Inl e \<Rightarrow> Inr (text_result (''Error: '' @ error_text e))
      | Inr res \<Rightarrow> Inr res)"
  by (simp add: callTool_def split: prod.splits sum.splits)

subsection \<open>Decimal text\<close>

text \<open>The digits of \<open>decimal_of_nat n\<close> are decimal digits, and read back as \<open>n\<close>.\<close>

lemma digit_char_value: "d < 10 \<Longrightarrow> of_char (digit_char d) = 48 + d"
proof -
  assume "d < 10"
  then have "d \<in> {0, 1, 2, 3, 4, 5, 6, 7, 8, 9}" by auto
  then show ?thesis
    by (auto simp: digit_char_def)
qed

lemma digits_value_snoc: "digits_value (cs @ [c]) = digits_value cs * 10 + (of_char c - 48)"
  by (simp add: digits_value_def)

lemma digits_value_decimal: "digits_value (decimal_of_nat n) = n"
proof (induction n rule: decimal_of_nat.induct)
  case (1 m)
  show ?case
  proof (cases "10 \<le> m")
    case True
    with 1 have "digits_value (decimal_of_nat (m div 10)) = m div 10" by simp
    with True show ?thesis
      by (subst decimal_of_nat.simps) (simp add: digits_value_snoc digit_char_value)
  next
    case False
    then show ?thesis
      by (subst decimal_of_nat.simps) (simp add: digits_value_snoc digit_char_value digits_value_def)
  qed
qed

lemma is_digit_digit_char: "d < 10 \<Longrightarrow> is_digit (digit_char d)"
  by (simp add: is_digit_def digit_char_value)

lemma decimal_all_digits: "list_all is_digit (decimal_of_nat n)"
proof (induction n rule: decimal_of_nat.induct)
  case (1 m)
  then show ?case
    by (subst decimal_of_nat.simps) (simp add: is_digit_digit_char)
qed

lemma decimal_not_empty: "decimal_of_nat n \<noteq> []"
  by (subst decimal_of_nat.simps) simp

section \<open>Evaluation of concrete calls\<close>

lemmas eval_defs = searchParams_def URLSearchParams_def obj_spread_def filteredParams_def
  stringified_def Object_fromEntries_def kept_def Object_entries_def is_array_index_def
  array_index_def digits_value_def is_digit_def index_value_def decimal_of_nat.simps
  digit_char_def join_def toString_def serialize_pair_def urlencode_def urlencode_byte_def
  urlencoded_plain_def hex_digit_def

lemmas call_defs = callTool_def dispatch_def searchImages_def searchVideos_def getImageById_def
  getVideoById_def search_def ok_def Let_def no_effects_def PixabayMCPServer_def obj_get_def

section \<open>The claims\<close>

subsection \<open>Failures at the boundary of a call\<close>

text \<open>
  Claim C1, as amended. With a configured (non-empty) API key, every tool call returns a
  result with one text item, whatever the tool name, the arguments and the outcome of
  the request; whenever the dispatch inside the \<open>try\<close> throws (an unknown tool name, an
  upstream HTTP error, a network failure, a type error on missing arguments or on a
  value that \<open>String\<close> cannot convert), that text
  is \<open>Error: \<close> followed by the message of what was thrown. The test of the API key
  stands before the \<open>try\<close>, so the configuration error is not among the failures caught.
\<close>

theorem callTool_catches_when_configured:
  assumes "apiKey cfg \<noteq> []"
  shows "\<exists>t. fst (callTool cfg fo name args) = Inr (text_result t) \<and>
    (\<forall>e. fst (dispatch cfg fo name args) = Inl e \<longrightarrow> t = ''Error: '' @ error_text e)"
proof (cases "fst (dispatch cfg fo name args)")
  case (Inl e)
  with assms show ?thesis
    by (simp add: callTool_result)
next
  case (Inr res)
  have "\<exists>t. res = text_result t"
    using Inr
    by (cases fo)
      (auto simp: dispatch_def searchImages_def searchVideos_def getImageById_def getVideoById_def
        search_def Let_def split: if_splits option.splits sum.splits)
  with assms Inr show ?thesis
    by (auto simp: callTool_result)
qed

text \<open>A network failure of \<open>search_images\<close>, with the key \<open>K\<close> configured.\<close>

theorem callTool_catches_when_configured_witness:
  "apiKey (PixabayMCPServer (Some ''K'')) \<noteq> [] \<and>
   fst (callTool (PixabayMCPServer (Some ''K'')) (Rejects (Error ''getaddrinfo ENOTFOUND pixabay.com''))
          ''search_images'' (Some [(''q'', Str ''cat'')]))
     = Inr (text_result ''Error: getaddrinfo ENOTFOUND pixabay.com'')"
  using callTool_catches_when_configured
    [of "PixabayMCPServer (Some ''K'')" "Rejects (Error ''getaddrinfo ENOTFOUND pixabay.com'')"
        "''search_images''" "Some [(''q'', Str ''cat'')]"]
  by (simp add: call_defs eval_defs)

text \<open>Claim C1 as stated fails: with no key in the environment, the call of
  \<open>search_images\<close> ends in an exception, not in a result.\<close>

theorem callTool_throws_without_key:
  "fst (callTool (PixabayMCPServer None) (Rejects (Error ''getaddrinfo ENOTFOUND pixabay.com''))
          ''search_images'' (Some [(''q'', Str ''cat'')]))
     = Inl (Error ''PIXABAY_API_KEY environment variable is required'')"
  by (simp add: callTool_def PixabayMCPServer_def)

text \<open>
  Claim C2, as amended. A tool call made while the API key is empty throws the
  configuration error \<open>PIXABAY_API_KEY environment variable is required\<close> out of the
  handler; no request is made and nothing is logged before it.
\<close>

theorem callTool_without_key:
  assumes "apiKey cfg = []"
  shows "fst (callTool cfg fo name args) = Inl (Error ''PIXABAY_API_KEY environment variable is required'')
    \<and> fetched (snd (callTool cfg fo name args)) = []
    \<and> stderr (snd (callTool cfg fo name args)) = []"
  using assms by (simp add: callTool_def no_effects_def)

theorem callTool_without_key_witness:
  "apiKey (PixabayMCPServer (Some [])) = [] \<and>
   callTool (PixabayMCPServer (Some []))
     (Resolves \<lparr> status = 200, statusText = ''OK'', body_text = Inr ''{}'', body_json = Inr ''{}'' \<rparr>)
     ''search_videos'' (Some [(''q'', Str ''sea'')])
   = (Inl (Error ''PIXABAY_API_KEY environment variable is required''), \<lparr> stderr = [], fetched = [] \<rparr>)"
  using callTool_without_key
    [of "PixabayMCPServer (Some [])"
        "Resolves \<lparr> status = 200, statusText = ''OK'', body_text = Inr ''{}'', body_json = Inr ''{}'' \<rparr>"
        "''search_videos''" "Some [(''q'', Str ''sea'')]"]
  by (simp add: PixabayMCPServer_def prod_eq_iff)

text \<open>Claim C2 as stated fails: the call of \<open>get_image_by_id\<close> without a key does not
  return a textual error result, it throws.\<close>

theorem callTool_without_key_is_no_result:
  "fst (callTool (PixabayMCPServer None)
          (Resolves \<lparr> status = 200, statusText = ''OK'', body_text = Inr ''{}'', body_json = Inr ''{}'' \<rparr>)
          ''get_image_by_id'' (Some [(''id'', Str ''195893'')]))
     = Inl (Error ''PIXABAY_API_KEY environment variable is required'')"
  by (simp add: callTool_def PixabayMCPServer_def)

text \<open>
  Claim C7, as amended. With a configured API key, a call whose name is none of the four
  tools returns the text \<open>Error: Unknown tool: \<close> followed by the name, and makes no
  request.
\<close>

theorem unknown_tool:
  assumes "apiKey cfg \<noteq> []" and "name \<notin> set tool_names"
  shows "fst (callTool cfg fo name args) = Inr (text_result (''Error: Unknown tool: '' @ name))
    \<and> fetched (snd (callTool cfg fo name args)) = []"
  using assms by (simp add: callTool_def dispatch_def no_effects_def tool_names_def)

theorem unknown_tool_witness:
  "apiKey (PixabayMCPServer (Some ''K'')) \<noteq> [] \<and>
   ''delete_image'' \<notin> set tool_names \<and>
   fst (callTool (PixabayMCPServer (Some ''K'')) (Rejects (Error ''unused'')) ''delete_image'' None)
     = Inr (text_result ''Error: Unknown tool: delete_image'') \<and>
   fetched (snd (callTool (PixabayMCPServer (Some ''K'')) (Rejects (Error ''unused'')) ''delete_image'' None)) = []"
  using unknown_tool [of "PixabayMCPServer (Some ''K'')" "''delete_image''" "Rejects (Error ''unused'')" None]
  by (simp add: PixabayMCPServer_def tool_names_def)

text \<open>Claim C7 as stated fails: without a key, the unknown name is never looked at and
  the call throws the configuration error.\<close>

theorem unknown_tool_without_key:
  "''delete_image'' \<notin> set tool_names \<and>
   fst (callTool (PixabayMCPServer None) (Rejects (Error ''unused'')) ''delete_image'' None)
     = Inl (Error ''PIXABAY_API_KEY environment variable is required'')"
  by (simp add: callTool_def PixabayMCPServer_def tool_names_def)

subsection \<open>The parameters of the outbound query\<close>

text \<open>
  Claim C3, as amended. Take the arguments of \<open>search_images\<close> or \<open>search_videos\<close> (an
  object, so with distinct keys). No query is constructed when \<open>String\<close> throws for a
  value that the filter keeps, as it does for an object with a property \<open>toString\<close> of
  its own. In the query that is constructed otherwise, every key whose value is
  \<open>undefined\<close>, \<open>null\<close> or the empty string is absent, unless it is the name \<open>key\<close> of the
  credential; every other value is there under its key as the string \<open>String\<close> gives
  for it: a boolean as \<open>true\<close> or \<open>false\<close>, a number as its decimal text.
\<close>

theorem dropped_and_stringified:
  assumes "distinct (map fst ps)" and "(k, v) \<in> set ps"
  shows "case searchParams cfg ps of
      None \<Rightarrow> \<exists>e\<in>set ps. kept e \<and> js_String (snd e) = None
    | Some sp \<Rightarrow>
        (if v = Undefined \<or> v = Null \<or> v = Str []
         then k \<noteq> ''key'' \<longrightarrow> k \<notin> fst ` set sp
         else \<exists>s. js_String v = Some s \<and> map_of sp k = Some s) \<and>
        (\<forall>b. v = Bool b \<longrightarrow> map_of sp k = Some (if b then ''true'' else ''false'')) \<and>
        (\<forall>s. v = Num s \<longrightarrow> map_of sp k = Some s)"
proof (cases "searchParams cfg ps")
  case None
  then have "\<exists>e\<in>set ps. kept e \<and> js_String (snd e) = None"
    by (simp only: searchParams_None)
  with None show ?thesis
    by simp
next
  case (Some sp)
  show ?thesis
  proof (cases "kept (k, v)")
    case True
    with assms Some have "\<exists>s. js_String v = Some s \<and> map_of sp k = Some s"
      by (intro searchParams_kept)
    with True Some show ?thesis
      by (auto simp: kept_def)
  next
    case False
    then have v: "v = Undefined \<or> v = Null \<or> v = Str []"
      by (simp add: kept_def)
    have "k \<noteq> ''key'' \<longrightarrow> k \<notin> fst ` set sp"
      using searchParams_dropped [OF assms(1) Some assms(2) False] by blast
    with v Some show ?thesis
      by auto
  qed
qed

text \<open>The example call of the specification: \<open>colors\<close> and \<open>category\<close> are unset and left
  out, the other four parameters follow the credential.\<close>

theorem dropped_and_stringified_witness:
  "distinct (map fst [(''q'', Str ''mountain landscape''), (''colors'', Str []),
      (''min_width'', Num ''1920''), (''editors_choice'', Bool True), (''category'', Null)]) \<and>
   searchParams (PixabayMCPServer (Some ''K''))
      [(''q'', Str ''mountain landscape''), (''colors'', Str []),
       (''min_width'', Num ''1920''), (''editors_choice'', Bool True), (''category'', Null)]
     = Some [(''key'', ''K''), (''q'', ''mountain landscape''), (''min_width'', ''1920''),
             (''editors_choice'', ''true'')] \<and>
   ''colors'' \<notin> fst ` set [(''key'', ''K''), (''q'', ''mountain landscape''),
      (''min_width'', ''1920''), (''editors_choice'', ''true'')] \<and>
   toString [(''key'', ''K''), (''q'', ''mountain landscape''), (''min_width'', ''1920''),
             (''editors_choice'', ''true'')]
     = ''key=K&q=mountain+landscape&min_width=1920&editors_choice=true''"
  using dropped_and_stringified [of "[(''q'', Str ''mountain landscape''), (''colors'', Str []),
       (''min_width'', Num ''1920''), (''editors_choice'', Bool True), (''category'', Null)]"
       "''colors''" "Str []" "PixabayMCPServer (Some ''K'')"]
    dropped_and_stringified [of "[(''q'', Str ''mountain landscape''), (''colors'', Str []),
       (''min_width'', Num ''1920''), (''editors_choice'', Bool True), (''category'', Null)]"
       "''min_width''" "Num ''1920''" "PixabayMCPServer (Some ''K'')"]
  by (simp add: eval_defs PixabayMCPServer_def)

text \<open>Claim C3 as stated fails: the key named \<open>key\<close> has the empty string as its value,
  and is in the query all the same, with the configured credential. And an object with
  an own \<open>toString\<close> is not coerced: no query comes of it.\<close>

theorem empty_key_entry_counterexample:
  "searchParams (PixabayMCPServer (Some ''K'')) [(''key'', Str [])] = Some [(''key'', ''K'')] \<and>
   toString [(''key'', ''K'')] = ''key=K'' \<and>
   searchParams (PixabayMCPServer (Some ''K'')) [(''q'', Obj [(''toString'', Num ''1'')])] = None"
  by (simp add: eval_defs PixabayMCPServer_def)

subsection \<open>Upstream errors\<close>

text \<open>
  Claim C4, as amended. When a call of \<open>search_images\<close> or \<open>search_videos\<close> has made its
  request and the response has a status outside 200 to 299, the call returns a result
  (it does not throw) whose text starts with \<open>Error:\<close>. When the body of the response
  is read, as \<open>b\<close>, the text is \<open>Error: Pixabay API error: \<close>, the status in decimal, a
  space, the status text, \<open> - \<close> and \<open>b\<close>, so it contains the three of them; when reading
  the body fails, the text is \<open>Error: \<close> and the message of that failure.
\<close>

theorem upstream_error_reported:
  assumes "name = ''search_images'' \<or> name = ''search_videos''"
    and "fetched (snd (callTool cfg (Resolves r) name args)) \<noteq> []"
    and "\<not> ok r"
  shows "\<exists>t. fst (callTool cfg (Resolves r) name args) = Inr (text_result t) \<and>
    prefix ''Error:'' t \<and>
    (\<forall>b. body_text r = Inr b \<longrightarrow>
       t = ''Error: Pixabay API error: '' @ decimal_of_nat (status r) @ '' '' @ statusText r @ '' - '' @ b \<and>
       sublist (decimal_of_nat (status r)) t \<and> sublist (statusText r) t \<and> sublist b t) \<and>
    (\<forall>e. body_text r = Inl e \<longrightarrow> t = ''Error: '' @ error_text e)"
proof -
  from assms(2) have key: "apiKey cfg \<noteq> []"
    by (auto simp: callTool_def no_effects_def)
  from assms(1,2) key obtain ps where args: "args = Some ps"
    by (cases args) (auto simp: callTool_effects dispatch_def searchImages_def searchVideos_def
        search_def no_effects_def)
  from assms(1,2) key obtain sp where sp: "searchParams cfg ps = Some sp"
    by (cases "searchParams cfg ps") (auto simp: args callTool_effects dispatch_def searchImages_def
        searchVideos_def search_thrown no_effects_def)
  define t where "t = ''Error: '' @ error_text (case body_text r of
       Inl e \<Rightarrow> e
     | Inr b \<Rightarrow> Error (''Pixabay API error: '' @ decimal_of_nat (status r) @ '' ''
                        @ statusText r @ '' - '' @ b))"
  have res: "fst (callTool cfg (Resolves r) name args) = Inr (text_result t)"
    using assms(1,3) key
    by (auto simp: callTool_result args dispatch_def searchImages_def searchVideos_def
        search_result_not_ok [OF sp] t_def split: sum.splits)
  have pre: "prefix ''Error:'' t"
    by (simp add: t_def)
  have thrown: "t = ''Error: '' @ error_text e" if "body_text r = Inl e" for e
    using that by (simp add: t_def)
  have body: "t = ''Error: Pixabay API error: '' @ decimal_of_nat (status r) @ '' '' @ statusText r @ '' - '' @ b
      \<and> sublist (decimal_of_nat (status r)) t \<and> sublist (statusText r) t \<and> sublist b t"
    if b: "body_text r = Inr b" for b
  proof -
    have t: "t = ''Error: Pixabay API error: '' @ decimal_of_nat (status r) @ '' '' @ statusText r @ '' - '' @ b"
      by (simp add: t_def b)
    have "sublist (decimal_of_nat (status r)) t"
      unfolding t by (rule sublist_appendI)
    moreover have "t = (''Error: Pixabay API error: '' @ decimal_of_nat (status r) @ '' '') @ statusText r @ ('' - '' @ b)"
      by (simp add: t)
    then have "sublist (statusText r) t"
      by (metis sublist_appendI)
    moreover have "t = (''Error: Pixabay API error: '' @ decimal_of_nat (status r) @ '' '' @ statusText r @ '' - '') @ b"
      by (simp add: t)
    then have "sublist b t"
      by (metis sublist_append_leftI)
    ultimately show ?thesis using t by simp
  qed
  from res pre body thrown show ?thesis by blast
qed

theorem upstream_error_reported_witness:
  "fetched (snd (callTool (PixabayMCPServer (Some ''K''))
      (Resolves \<lparr> status = 429, statusText = ''Too Many Requests'',
                  body_text = Inr ''API rate limit exceeded'', body_json = Inl (Error ''invalid json'') \<rparr>)
      ''search_images'' (Some [(''q'', Str ''cat'')]))) \<noteq> [] \<and>
   \<not> ok \<lparr> status = 429, statusText = ''Too Many Requests'',
           body_text = Inr ''API rate limit exceeded'', body_json = Inl (Error ''invalid json'') \<rparr> \<and>
   fst (callTool (PixabayMCPServer (Some ''K''))
      (Resolves \<lparr> status = 429, statusText = ''Too Many Requests'',
                  body_text = Inr ''API rate limit exceeded'', body_json = Inl (Error ''invalid json'') \<rparr>)
      ''search_images'' (Some [(''q'', Str ''cat'')]))
     = Inr (text_result ''Error: Pixabay API error: 429 Too Many Requests - API rate limit exceeded'')"
  using upstream_error_reported [of "''search_images''" "PixabayMCPServer (Some ''K'')"
      "\<lparr> status = 429, statusText = ''Too Many Requests'',
         body_text = Inr ''API rate limit exceeded'', body_json = Inl (Error ''invalid json'') \<rparr>"
      "Some [(''q'', Str ''cat'')]"]
  by (simp add: call_defs eval_defs)

text \<open>Claim C4 as stated fails: the response has status 500, reading its body fails, and
  the text of the result has neither the status code nor the status text.\<close>

theorem upstream_error_body_unread:
  "\<not> ok \<lparr> status = 500, statusText = ''Internal Server Error'',
           body_text = Inl (Error ''Premature close''), body_json = Inl (Error ''Premature close'') \<rparr> \<and>
   callTool (PixabayMCPServer (Some ''K''))
      (Resolves \<lparr> status = 500, statusText = ''Internal Server Error'',
                  body_text = Inl (Error ''Premature close''), body_json = Inl (Error ''Premature close'') \<rparr>)
      ''search_images'' (Some [(''q'', Str ''cat'')])
     = (Inr (text_result ''Error: Premature close''),
        \<lparr> stderr = [''Pixabay API Request: https://pixabay.com/api/?key=K&q=cat''],
          fetched = [''https://pixabay.com/api/?key=K&q=cat''] \<rparr>) \<and>
   decimal_of_nat 500 = ''500'' \<and>
   \<not> sublist ''500'' ''Error: Premature close''"
  by (simp add: call_defs eval_defs sublist_Cons_right prefix_Cons)

subsection \<open>Lookup by identifier\<close>

text \<open>
  Claim C5, as amended. For every value \<open>v\<close> of \<open>id\<close>, a string or not, the call
  \<open>get_image_by_id({id: v})\<close> is the call \<open>search_images({id: v})\<close>: the same request URL
  byte for byte, the same log lines, the same result; likewise \<open>get_video_by_id\<close> and
  \<open>search_videos\<close>. The handler does not check the \<open>id\<close> before it delegates: for any
  argument object, what is read under \<open>id\<close>, \<open>undefined\<close> when the property is missing,
  becomes the sole filter of the search.
\<close>

theorem get_by_id_delegates:
  "callTool cfg fo ''get_image_by_id'' (Some [(''id'', v)])
     = callTool cfg fo ''search_images'' (Some [(''id'', v)]) \<and>
   callTool cfg fo ''get_video_by_id'' (Some [(''id'', v)])
     = callTool cfg fo ''search_videos'' (Some [(''id'', v)]) \<and>
   callTool cfg fo ''get_image_by_id'' (Some ps)
     = callTool cfg fo ''search_images'' (Some [(''id'', obj_get ps ''id'')]) \<and>
   callTool cfg fo ''get_video_by_id'' (Some ps)
     = callTool cfg fo ''search_videos'' (Some [(''id'', obj_get ps ''id'')])"
  by (simp add: callTool_def dispatch_def getImageById_def getVideoById_def obj_get_def)

theorem get_by_id_delegates_witness:
  "fetched (snd (callTool (PixabayMCPServer (Some ''K''))
      (Resolves \<lparr> status = 200, statusText = ''OK'', body_text = Inr ''{}'', body_json = Inr ''{}'' \<rparr>)
      ''get_image_by_id'' (Some [(''id'', Str ''195893'')])))
   = [''https://pixabay.com/api/?key=K&id=195893''] \<and>
   fetched (snd (callTool (PixabayMCPServer (Some ''K''))
      (Resolves \<lparr> status = 200, statusText = ''OK'', body_text = Inr ''{}'', body_json = Inr ''{}'' \<rparr>)
      ''search_images'' (Some [(''id'', Str ''195893'')])))
   = [''https://pixabay.com/api/?key=K&id=195893'']"
  using get_by_id_delegates [of "PixabayMCPServer (Some ''K'')"
      "Resolves \<lparr> status = 200, statusText = ''OK'', body_text = Inr ''{}'', body_json = Inr ''{}'' \<rparr>"
      "Str ''195893''" "[]"]
  by (simp add: call_defs eval_defs)

text \<open>Claim C5 as stated fails: a number as \<open>id\<close> is not rejected but sent as \<open>id=42\<close>, and
  a call without \<open>id\<close> is not rejected either: its request has the credential alone.\<close>

theorem get_by_id_unchecked:
  "fetched (snd (callTool (PixabayMCPServer (Some ''K''))
      (Resolves \<lparr> status = 200, statusText = ''OK'', body_text = Inr ''{}'', body_json = Inr ''{}'' \<rparr>)
      ''get_image_by_id'' (Some [(''id'', Num ''42'')])))
   = [''https://pixabay.com/api/?key=K&id=42''] \<and>
   fetched (snd (callTool (PixabayMCPServer (Some ''K''))
      (Resolves \<lparr> status = 200, statusText = ''OK'', body_text = Inr ''{}'', body_json = Inr ''{}'' \<rparr>)
      ''get_video_by_id'' (Some [])))
   = [''https://pixabay.com/api/videos/?key=K'']"
  by (simp add: call_defs eval_defs)

subsection \<open>Results per page\<close>

text \<open>
  Claim C6, as amended. Take a call of \<open>search_images\<close> or \<open>search_videos\<close> with a
  configured API key and a number as \<open>per_page\<close>, inside or outside the range 3 to 200
  that the tool schema declares. The number is neither checked against the range nor
  clamped: unless \<open>String\<close> throws for some argument that the filter keeps (then no
  request is made), the request is made and its query has \<open>per_page\<close> with the text of
  the number as given.
\<close>

theorem per_page_passed_through:
  assumes "apiKey cfg \<noteq> []" and "distinct (map fst ps)" and "(''per_page'', Num s) \<in> set ps"
  shows "case searchParams cfg ps of
      None \<Rightarrow>
        (\<exists>e\<in>set ps. kept e \<and> js_String (snd e) = None) \<and>
        fetched (snd (callTool cfg fo ''search_images'' (Some ps))) = [] \<and>
        fetched (snd (callTool cfg fo ''search_videos'' (Some ps))) = []
    | Some sp \<Rightarrow>
        map_of sp ''per_page'' = Some s \<and>
        fetched (snd (callTool cfg fo ''search_images'' (Some ps))) = [baseUrl cfg @ ''?'' @ toString sp] \<and>
        fetched (snd (callTool cfg fo ''search_videos'' (Some ps))) = [videosUrl cfg @ ''?'' @ toString sp]"
proof (cases "searchParams cfg ps")
  case None
  then have "\<exists>e\<in>set ps. kept e \<and> js_String (snd e) = None"
    by (simp only: searchParams_None)
  with None assms(1) show ?thesis
    by (simp add: callTool_effects dispatch_def searchImages_def searchVideos_def search_thrown
        no_effects_def)
next
  case (Some sp)
  have "kept (''per_page'', Num s)"
    by (simp add: kept_def)
  with assms(2) Some assms(3) have "\<exists>t. js_String (Num s) = Some t \<and> map_of sp ''per_page'' = Some t"
    by (rule searchParams_kept)
  then have "map_of sp ''per_page'' = Some s"
    by simp
  with Some assms(1) show ?thesis
    by (simp add: callTool_effects dispatch_def searchImages_def searchVideos_def search_fetched)
qed

theorem per_page_passed_through_witness:
  "1 < per_page_minimum \<and> decimal_of_nat 1 = ''1'' \<and>
   apiKey (PixabayMCPServer (Some ''K'')) \<noteq> [] \<and>
   distinct (map fst [(''q'', Str ''sea''), (''per_page'', Num ''1'')]) \<and>
   searchParams (PixabayMCPServer (Some ''K'')) [(''q'', Str ''sea''), (''per_page'', Num ''1'')]
     = Some [(''key'', ''K''), (''q'', ''sea''), (''per_page'', ''1'')] \<and>
   fetched (snd (callTool (PixabayMCPServer (Some ''K'')) (Rejects (Error ''timeout''))
      ''search_videos'' (Some [(''q'', Str ''sea''), (''per_page'', Num ''1'')])))
     = [''https://pixabay.com/api/videos/?key=K&q=sea&per_page=1'']"
  using per_page_passed_through [of "PixabayMCPServer (Some ''K'')"
      "[(''q'', Str ''sea''), (''per_page'', Num ''1'')]" "''1''" "Rejects (Error ''timeout'')"]
  by (simp add: eval_defs PixabayMCPServer_def per_page_minimum_def)

text \<open>Claim C6 as stated fails: \<open>per_page\<close> 500 goes out as it came in.\<close>

theorem per_page_500_sent:
  "per_page_maximum < 500 \<and> decimal_of_nat 500 = ''500'' \<and>
   fetched (snd (callTool (PixabayMCPServer (Some ''K''))
      (Resolves \<lparr> status = 200, statusText = ''OK'', body_text = Inr ''{}'', body_json = Inr ''{}'' \<rparr>)
      ''search_images'' (Some [(''per_page'', Num ''500'')])))
   = [''https://pixabay.com/api/?key=K&per_page=500'']"
  by (simp add: call_defs eval_defs per_page_maximum_def)

subsection \<open>The credential\<close>

text \<open>
  Claim C8, as amended. Take a non-empty configured API key, and arguments that hold
  under \<open>key\<close> no value, other than the empty string, whose string form is empty (an
  empty array is one). Then \<open>search_images\<close> and \<open>search_videos\<close> either make no request
  (when \<open>String\<close> throws for an argument), or make the one request whose query has
  exactly one parameter named \<open>key\<close>, with a value that is not empty. The credential
  travels in the URL, which is all that is handed to \<open>fetch\<close>.
\<close>

theorem one_credential_parameter:
  assumes "apiKey cfg \<noteq> []"
    and "\<forall>v. (''key'', v) \<in> set ps \<longrightarrow> v \<noteq> Str [] \<longrightarrow> js_String v \<noteq> Some []"
  shows "case searchParams cfg ps of
      None \<Rightarrow>
        fetched (snd (searchImages cfg fo (Some ps))) = [] \<and>
        fetched (snd (searchVideos cfg fo (Some ps))) = []
    | Some sp \<Rightarrow>
        (\<exists>c. c \<noteq> [] \<and> filter (\<lambda>p. fst p = ''key'') sp = [(''key'', c)]) \<and>
        fetched (snd (searchImages cfg fo (Some ps))) = [baseUrl cfg @ ''?'' @ toString sp] \<and>
        fetched (snd (searchVideos cfg fo (Some ps))) = [videosUrl cfg @ ''?'' @ toString sp]"
proof (cases "searchParams cfg ps")
  case None
  then show ?thesis
    by (simp add: searchImages_def searchVideos_def search_thrown no_effects_def)
next
  case (Some sp)
  obtain c where c: "(''key'', c) \<in> set sp"
    using searchParams_has_key [OF Some] by blast
  with Some have "c = apiKey cfg \<or>
      (\<exists>v. (''key'', v) \<in> set ps \<and> kept (''key'', v) \<and> js_String v = Some c)"
    by (rule searchParams_key_value)
  with assms have "c \<noteq> []"
    by (auto simp: kept_def)
  moreover have "filter (\<lambda>p. fst p = ''key'') sp = [(''key'', c)]"
    using searchParams_distinct [OF Some] c by (rule distinct_filter_key)
  ultimately show ?thesis
    using Some by (auto simp: searchImages_def searchVideos_def search_fetched)
qed

theorem one_credential_parameter_witness:
  "apiKey (PixabayMCPServer (Some ''K'')) \<noteq> [] \<and>
   searchParams (PixabayMCPServer (Some ''K'')) [(''q'', Str ''cat''), (''key'', Str [])]
     = Some [(''key'', ''K''), (''q'', ''cat'')] \<and>
   filter (\<lambda>p. fst p = ''key'') [(''key'', ''K''), (''q'', ''cat'')] = [(''key'', ''K'')] \<and>
   fetched (snd (searchImages (PixabayMCPServer (Some ''K'')) (Rejects (Error ''timeout''))
     (Some [(''q'', Str ''cat''), (''key'', Str [])])))
     = [''https://pixabay.com/api/?key=K&q=cat'']"
  using one_credential_parameter [of "PixabayMCPServer (Some ''K'')"
      "[(''q'', Str ''cat''), (''key'', Str [])]" "Rejects (Error ''timeout'')"]
  by (simp add: eval_defs PixabayMCPServer_def)

text \<open>Claim C8 as stated fails: an empty array under \<open>key\<close> passes the filter, has the
  empty string as its string form, and replaces the configured credential.\<close>

theorem empty_credential_sent:
  "searchParams (PixabayMCPServer (Some ''K'')) [(''key'', Arr [])] = Some [(''key'', [])] \<and>
   fetched (snd (callTool (PixabayMCPServer (Some ''K''))
      (Resolves \<lparr> status = 200, statusText = ''OK'', body_text = Inr ''{}'', body_json = Inr ''{}'' \<rparr>)
      ''search_images'' (Some [(''key'', Arr [])])))
   = [''https://pixabay.com/api/?key='']"
  by (simp add: call_defs eval_defs)

text \<open>
  Claim C9, as amended. Take a call of \<open>search_images\<close> or \<open>search_videos\<close> with a
  configured API key. Without an argument object, or when \<open>String\<close> throws for an
  argument, the call writes nothing to the diagnostic stream. Otherwise, when the
  arguments hold under \<open>key\<close> nothing that the filter keeps, the first line the call
  writes holds the request URL and in it \<open>key=\<close> followed by the url-encoded credential;
  a credential made of letters, digits and \<open>* - . _\<close> only is its own url-encoding, and
  so stands there verbatim and in full.
\<close>

theorem credential_logged:
  assumes "apiKey cfg \<noteq> []"
    and "name = ''search_images'' \<or> name = ''search_videos''"
    and "\<forall>v. (''key'', v) \<in> set ps \<longrightarrow> v = Undefined \<or> v = Null \<or> v = Str []"
  shows "stderr (snd (callTool cfg fo name None)) = [] \<and>
    (case searchParams cfg ps of
       None \<Rightarrow> stderr (snd (callTool cfg fo name (Some ps))) = []
     | Some sp \<Rightarrow>
         \<exists>line rest. stderr (snd (callTool cfg fo name (Some ps))) = line # rest \<and>
           sublist (''key='' @ urlencode (apiKey cfg)) line \<and>
           (list_all urlencoded_plain (apiKey cfg) \<longrightarrow> sublist (apiKey cfg) line))"
proof -
  define ep l1 l2 where "ep = (if name = ''search_images'' then baseUrl cfg else videosUrl cfg)"
    and "l1 = (if name = ''search_images'' then ''Pixabay API Request: '' else ''Pixabay Video API Request: '')"
    and "l2 = (if name = ''search_images'' then ''Pixabay API Error Response: '' else ''Pixabay Video API Error Response: '')"
  have eff: "snd (callTool cfg fo name args) = snd (search ep l1 l2 cfg fo args)" for args
    using assms(1,2)
    by (auto simp: callTool_effects dispatch_def searchImages_def searchVideos_def ep_def l1_def l2_def)
  have none: "stderr (snd (callTool cfg fo name None)) = []"
    by (simp add: eff search_def no_effects_def)
  show ?thesis
  proof (cases "searchParams cfg ps")
    case None
    with none show ?thesis
      by (simp add: eff search_thrown no_effects_def)
  next
    case (Some sp)
    obtain c where c: "(''key'', c) \<in> set sp"
      using searchParams_has_key [OF Some] by blast
    with Some have "c = apiKey cfg \<or>
        (\<exists>v. (''key'', v) \<in> set ps \<and> kept (''key'', v) \<and> js_String v = Some c)"
      by (rule searchParams_key_value)
    with assms(3) have "c = apiKey cfg"
      by (auto simp: kept_def)
    with c have "sublist (serialize_pair (''key'', apiKey cfg)) (toString sp)"
      by (simp add: sublist_toString)
    moreover have "urlencode ''key'' = ''key''"
      by (simp add: urlencode_def urlencode_byte_def urlencoded_plain_def)
    then have "serialize_pair (''key'', apiKey cfg) = ''key='' @ urlencode (apiKey cfg)"
      by (simp add: serialize_pair_def)
    ultimately obtain us vs where q: "toString sp = us @ (''key='' @ urlencode (apiKey cfg)) @ vs"
      by (auto simp: sublist_def)
    obtain rest where rest: "stderr (snd (search ep l1 l2 cfg fo (Some ps))) =
        (l1 @ ep @ ''?'' @ toString sp) # rest"
      using search_stderr_hd [OF Some] by blast
    let ?line = "l1 @ ep @ ''?'' @ toString sp"
    have 1: "?line = (l1 @ ep @ ''?'' @ us) @ (''key='' @ urlencode (apiKey cfg)) @ vs"
      by (simp add: q)
    have a: "sublist (''key='' @ urlencode (apiKey cfg)) ?line"
      by (subst 1) (rule sublist_appendI)
    have b: "sublist (apiKey cfg) ?line" if "list_all urlencoded_plain (apiKey cfg)"
    proof -
      have "?line = (l1 @ ep @ ''?'' @ us @ ''key='') @ apiKey cfg @ vs"
        using that by (simp add: q urlencode_plain)
      then show ?thesis
        by (metis sublist_appendI)
    qed
    from a b rest none Some show ?thesis
      by (simp add: eff)
  qed
qed

theorem credential_logged_witness:
  "apiKey (PixabayMCPServer (Some ''53122-abc'')) \<noteq> [] \<and>
   list_all urlencoded_plain (apiKey (PixabayMCPServer (Some ''53122-abc''))) \<and>
   searchParams (PixabayMCPServer (Some ''53122-abc'')) [(''q'', Str ''sea'')]
     = Some [(''key'', ''53122-abc''), (''q'', ''sea'')] \<and>
   stderr (snd (callTool (PixabayMCPServer (Some ''53122-abc'')) (Rejects (Error ''timeout''))
      ''search_videos'' (Some [(''q'', Str ''sea'')])))
     = [''Pixabay Video API Request: https://pixabay.com/api/videos/?key=53122-abc&q=sea'']"
  using credential_logged [of "PixabayMCPServer (Some ''53122-abc'')" "''search_videos''"
      "[(''q'', Str ''sea'')]" "Rejects (Error ''timeout'')"]
  by (simp add: call_defs eval_defs)

text \<open>Claim C9 as stated fails: the credential \<open>53122-abc\<close> is in the line written by
  \<open>search_images\<close>.\<close>

theorem credential_in_log:
  "stderr (snd (callTool (PixabayMCPServer (Some ''53122-abc''))
      (Resolves \<lparr> status = 200, statusText = ''OK'', body_text = Inr ''{}'', body_json = Inr ''{}'' \<rparr>)
      ''search_images'' (Some [(''q'', Str ''cat'')])))
     = [''Pixabay API Request: https://pixabay.com/api/?key=53122-abc&q=cat''] \<and>
   sublist ''53122-abc'' ''Pixabay API Request: https://pixabay.com/api/?key=53122-abc&q=cat''"
proof -
  have "''Pixabay API Request: https://pixabay.com/api/?key=53122-abc&q=cat''
      = ''Pixabay API Request: https://pixabay.com/api/?key='' @ ''53122-abc'' @ ''&q=cat''"
    by simp
  then have "sublist ''53122-abc'' ''Pixabay API Request: https://pixabay.com/api/?key=53122-abc&q=cat''"
    by (metis sublist_appendI)
  then show ?thesis
    by (simp add: call_defs eval_defs)
qed

text \<open>
  Claim C10. When the arguments of \<open>search_images\<close> or \<open>search_videos\<close> hold a non-empty
  string under \<open>key\<close>, the one parameter \<open>key\<close> of the outbound query has that string
  as its value, whatever the configured API key is; and there is an outbound query
  unless \<open>String\<close> throws for an argument, when no request is made at all.
\<close>

theorem caller_key_overrides:
  assumes "distinct (map fst ps)" and "(''key'', Str s) \<in> set ps" and "s \<noteq> []"
  shows "case searchParams cfg ps of
      None \<Rightarrow>
        fetched (snd (searchImages cfg fo (Some ps))) = [] \<and>
        fetched (snd (searchVideos cfg fo (Some ps))) = []
    | Some sp \<Rightarrow>
        filter (\<lambda>p. fst p = ''key'') sp = [(''key'', s)] \<and>
        fetched (snd (searchImages cfg fo (Some ps))) = [baseUrl cfg @ ''?'' @ toString sp] \<and>
        fetched (snd (searchVideos cfg fo (Some ps))) = [videosUrl cfg @ ''?'' @ toString sp]"
proof (cases "searchParams cfg ps")
  case None
  then show ?thesis
    by (simp add: searchImages_def searchVideos_def search_thrown no_effects_def)
next
  case (Some sp)
  have "kept (''key'', Str s)"
    using assms(3) by (simp add: kept_def)
  with assms(1) Some assms(2) have "\<exists>t. js_String (Str s) = Some t \<and> map_of sp ''key'' = Some t"
    by (rule searchParams_kept)
  then have "(''key'', s) \<in> set sp"
    by (auto dest: map_of_SomeD)
  with searchParams_distinct [OF Some] have "filter (\<lambda>p. fst p = ''key'') sp = [(''key'', s)]"
    by (rule distinct_filter_key)
  with Some show ?thesis
    by (simp add: searchImages_def searchVideos_def search_fetched)
qed

theorem caller_key_overrides_witness:
  "distinct (map fst [(''q'', Str ''cat''), (''key'', Str ''mine'')]) \<and>
   searchParams (PixabayMCPServer (Some ''K'')) [(''q'', Str ''cat''), (''key'', Str ''mine'')]
     = Some [(''key'', ''mine''), (''q'', ''cat'')] \<and>
   fetched (snd (searchImages (PixabayMCPServer (Some ''K'')) (Rejects (Error ''timeout''))
      (Some [(''q'', Str ''cat''), (''key'', Str ''mine'')])))
     = [''https://pixabay.com/api/?key=mine&q=cat'']"
  using caller_key_overrides [of "[(''q'', Str ''cat''), (''key'', Str ''mine'')]" "''mine''"
      "PixabayMCPServer (Some ''K'')" "Rejects (Error ''timeout'')"]
  by (simp add: call_defs eval_defs)

end
